theory Spec2Isabelle
  imports Main
begin

section \<open>The relay server of \<open>src/server.js\<close>\<close>

text \<open>
  The server is a single event loop: every callback (connection, message, close, pong, timer)
  runs to completion on the shared registry and buffers. The model is one state record and one
  function per callback. What the callbacks read from outside is an argument: \<open>now\<close> is the
  value of \<open>Date.now()\<close> (milliseconds, also the clock against which timers are due) and
  \<open>rnd\<close> is the string \<open>Math.random().toString(36).slice(2, 7)\<close>.
  What they write to a socket is appended to \<open>outbox\<close>. Console logging is left out.
\<close>

subsection \<open>Data\<close>

type_synonym conn = nat
  \<comment> \<open>the identity of a \<open>ws\<close> object\<close>

type_synonym json = string
  \<comment> \<open>an opaque JSON value (the field \<open>data\<close> of an envelope), kept as its text\<close>

record socket =
  remoteAddress :: "string option"
  remotePort :: "nat option"

record ws =
  readyState :: nat
  isAlive :: bool
  isBrowser :: bool
  registerTimer :: "nat option"
  socket :: "socket option"

record sender_info =
  sid :: string
  addr :: string

text \<open>An entry of \<open>screenshotBuffer\<close>: \<open>{ type: 'screenshot', data, senderId, timestamp }\<close>.\<close>

record shot =
  sdata :: "json option"
  senderId :: "string option"
  timestamp :: nat

text \<open>An entry of \<open>codeBuffer\<close>: \<open>{ data, timestamp }\<close>.\<close>

record cmd =
  cdata :: "json option"
  ctimestamp :: nat

text \<open>
  The frames the server writes. \<open>Raw\<close> is \<open>message.toString()\<close>, the inbound text relayed
  unchanged; the others are the objects given to \<open>JSON.stringify\<close>. A screenshot carries a
  timestamp only when it comes out of the buffer.
\<close>

datatype frame =
    SenderConnected sender_info
  | SenderDisconnected sender_info
  | Screenshot "json option" "string option" "nat option"
  | CodeMsg "json option"
  | Raw string
  | CurrentSenders "sender_info list"
  | NoSenders
  | Ping

text \<open>
  An inbound frame: its text and what \<open>JSON.parse\<close> makes of it. \<open>None\<close> stands for a text
  that makes the handler throw (not JSON, or the value \<open>null\<close>); otherwise the fields \<open>type\<close>
  and \<open>data\<close> of the parsed value, a \<open>type\<close> that is no string counting as a string that
  matches no branch.
\<close>

record envelope =
  mtype :: string
  mdata :: "json option"

record inbound =
  raw :: string
  parsed :: "envelope option"

datatype task =
    RegisterTimer conn
  | FlushStart conn
  | PacedSend conn shot
  | ClearShots
  | Sweep
  | Heartbeat

record timer =
  tid :: nat
  due :: nat
  task :: task

record engine =
  conns :: "conn \<Rightarrow> ws"
  clients :: "conn list"
  senders :: "(conn \<times> sender_info) list"
  browserClients :: "conn list"
  screenshotBuffer :: "shot list"
  codeBuffer :: "cmd list"
  timers :: "timer list"
  next_tid :: nat
  outbox :: "(conn \<times> frame) list"

definition MAX_BUFFER_SIZE :: nat where
  "MAX_BUFFER_SIZE = 100"

definition MESSAGE_TTL_MS :: int where
  "MESSAGE_TTL_MS = 3 * 60 * 60 * 1000"

subsection \<open>Map, Set and timers\<close>

text \<open>
  A JavaScript \<open>Map\<close> or \<open>Set\<close> iterates in insertion order, so both are lists; \<open>set\<close> on a
  present key keeps its place, \<open>add\<close> of a present member does nothing.
\<close>

definition map_has :: "'k \<Rightarrow> ('k \<times> 'v) list \<Rightarrow> bool" where
  "map_has k m = (map_of m k \<noteq> None)"

fun map_set :: "'k \<Rightarrow> 'v \<Rightarrow> ('k \<times> 'v) list \<Rightarrow> ('k \<times> 'v) list" where
  "map_set k v [] = [(k, v)]"
| "map_set k v (p # ps) = (if fst p = k then (k, v) # ps else p # map_set k v ps)"

definition map_delete :: "'k \<Rightarrow> ('k \<times> 'v) list \<Rightarrow> ('k \<times> 'v) list" where
  "map_delete k m = filter (\<lambda>p. fst p \<noteq> k) m"

definition set_add :: "'a \<Rightarrow> 'a list \<Rightarrow> 'a list" where
  "set_add x xs = (if x \<in> set xs then xs else xs @ [x])"

definition set_delete :: "'a \<Rightarrow> 'a list \<Rightarrow> 'a list" where
  "set_delete x xs = filter (\<lambda>y. y \<noteq> x) xs"

definition setTimeout :: "task \<Rightarrow> nat \<Rightarrow> nat \<Rightarrow> engine \<Rightarrow> engine" where
  "setTimeout tk delay now s =
     s\<lparr>timers := timers s @ [\<lparr>tid = next_tid s, due = now + delay, task = tk\<rparr>],
       next_tid := Suc (next_tid s)\<rparr>"

definition clearTimeout :: "nat \<Rightarrow> engine \<Rightarrow> engine" where
  "clearTimeout h s = s\<lparr>timers := filter (\<lambda>tm. tid tm \<noteq> h) (timers s)\<rparr>"

subsection \<open>Sending\<close>

definition ws_send :: "conn \<Rightarrow> frame \<Rightarrow> engine \<Rightarrow> engine" where
  "ws_send c f s = s\<lparr>outbox := outbox s @ [(c, f)]\<rparr>"

text \<open>Every send of the source is guarded by \<open>readyState === 1\<close> (OPEN).\<close>

definition send_if_open :: "conn \<Rightarrow> frame \<Rightarrow> engine \<Rightarrow> engine" where
  "send_if_open c f s = (if readyState (conns s c) = 1 then ws_send c f s else s)"

definition broadcastToBrowsers :: "frame \<Rightarrow> engine \<Rightarrow> engine" where
  "broadcastToBrowsers payload s =
     fold (\<lambda>client. send_if_open client payload) (browserClients s) s"

subsection \<open>Sender identities\<close>

definition digit_char :: "nat \<Rightarrow> char" where
  "digit_char d = ''0123456789'' ! d"

fun dec :: "nat \<Rightarrow> string" where
  "dec n = (if n < 10 then [digit_char n] else dec (n div 10) @ [digit_char (n mod 10)])"

declare dec.simps [simp del]

text \<open>\<open>a || d\<close> for a string that may be undefined or empty, and for a port that may be 0.\<close>

fun str_or :: "string option \<Rightarrow> string \<Rightarrow> string" where
  "str_or None d = d"
| "str_or (Some a) d = (if a = [] then d else a)"

fun port_or :: "nat option \<Rightarrow> string \<Rightarrow> string" where
  "port_or None d = d"
| "port_or (Some p) d = (if p = 0 then d else dec p)"

fun truthy_str :: "string option \<Rightarrow> bool" where
  "truthy_str None = False"
| "truthy_str (Some a) = (a \<noteq> [])"

fun truthy_port :: "nat option \<Rightarrow> bool" where
  "truthy_port None = False"
| "truthy_port (Some p) = (p \<noteq> 0)"

definition peer_addr :: "socket option \<Rightarrow> string" where
  "peer_addr so =
     (case so of
        None \<Rightarrow> ''unknown''
      | Some sk \<Rightarrow>
          if truthy_str (remoteAddress sk) \<or> truthy_port (remotePort sk)
          then str_or (remoteAddress sk) ''unknown'' @ '':'' @ port_or (remotePort sk) ''0''
          else ''unknown'')"

definition new_id :: "nat \<Rightarrow> string \<Rightarrow> string" where
  "new_id now rnd = ''sender-'' @ dec now @ ''-'' @ rnd"

text \<open>
  Lines 49-56 and 96-102: compute the address and the id, enter the connection in \<open>senders\<close>,
  tell the browsers.
\<close>

definition assign_sender :: "conn \<Rightarrow> nat \<Rightarrow> string \<Rightarrow> engine \<Rightarrow> engine" where
  "assign_sender c now rnd s =
     (let info = \<lparr>sid = new_id now rnd, addr = peer_addr (socket (conns s c))\<rparr>;
          s1 = s\<lparr>senders := map_set c info (senders s)\<rparr>
      in broadcastToBrowsers (SenderConnected info) s1)"

subsection \<open>Timer callbacks\<close>

definition cleanExpiredBuffers :: "nat \<Rightarrow> engine \<Rightarrow> engine" where
  "cleanExpiredBuffers now s =
     s\<lparr>screenshotBuffer :=
         filter (\<lambda>msg. int now - int (timestamp msg) < MESSAGE_TTL_MS) (screenshotBuffer s),
       codeBuffer :=
         filter (\<lambda>msg. int now - int (ctimestamp msg) < MESSAGE_TTL_MS) (codeBuffer s)\<rparr>"

text \<open>
  The keepalive sweep. \<open>terminate()\<close> belongs to the \<open>ws\<close> library: it destroys the socket and
  leaves the object in state 2 (CLOSING) until the close event; \<open>ping()\<close> writes a ping frame
  when the socket is open.
\<close>

definition ws_terminate :: "conn \<Rightarrow> engine \<Rightarrow> engine" where
  "ws_terminate c s =
     (if readyState (conns s c) = 3 then s
      else s\<lparr>conns := (conns s)(c := (conns s c)\<lparr>readyState := 2\<rparr>)\<rparr>)"

definition keepalive :: "engine \<Rightarrow> engine" where
  "keepalive s =
     fold (\<lambda>c st.
            if \<not> isAlive (conns st c) then ws_terminate c st
            else send_if_open c Ping (st\<lparr>conns := (conns st)(c := (conns st c)\<lparr>isAlive := False\<rparr>)\<rparr>))
          (clients s) s"

definition heartbeat :: "conn \<Rightarrow> engine \<Rightarrow> engine" where
  "heartbeat c s = s\<lparr>conns := (conns s)(c := (conns s c)\<lparr>isAlive := True\<rparr>)\<rparr>"

text \<open>The callback of \<open>registerTimer\<close>, lines 46-72.\<close>

definition registerTimer_cb :: "conn \<Rightarrow> nat \<Rightarrow> string \<Rightarrow> engine \<Rightarrow> engine" where
  "registerTimer_cb c now rnd s =
     (if \<not> isBrowser (conns s c) \<and> \<not> map_has c (senders s) then
        let s1 = assign_sender c now rnd s;
            s2 = fold (\<lambda>msg. send_if_open c (CodeMsg (cdata msg))) (codeBuffer s1) s1
        in s2\<lparr>codeBuffer := []\<rparr>
      else s)"

text \<open>The three nested timers of the buffered-screenshot flush, lines 180-205.\<close>

definition flush_start_cb :: "conn \<Rightarrow> nat \<Rightarrow> engine \<Rightarrow> engine" where
  "flush_start_cb c now s =
     (let toSend = screenshotBuffer s;
          s1 = fold (\<lambda>(index, msg). setTimeout (PacedSend c msg) (index * 50) now)
                    (enumerate 0 toSend) s
      in setTimeout ClearShots (length toSend * 50 + 100) now s1)"

definition paced_send_cb :: "conn \<Rightarrow> shot \<Rightarrow> engine \<Rightarrow> engine" where
  "paced_send_cb c msg s =
     send_if_open c (Screenshot (sdata msg) (senderId msg) (Some (timestamp msg))) s"

definition clear_shots_cb :: "engine \<Rightarrow> engine" where
  "clear_shots_cb s = s\<lparr>screenshotBuffer := []\<rparr>"

subsection \<open>Connection, message and close handlers\<close>

definition on_connection :: "conn \<Rightarrow> socket option \<Rightarrow> nat \<Rightarrow> engine \<Rightarrow> engine" where
  "on_connection c so now s =
     (let w = \<lparr>readyState = 1, isAlive = True, isBrowser = False,
               registerTimer = Some (next_tid s), socket = so\<rparr>
      in setTimeout (RegisterTimer c) 800 now
           (s\<lparr>conns := (conns s)(c := w), clients := set_add c (clients s)\<rparr>))"

definition on_screenshot :: "conn \<Rightarrow> nat \<Rightarrow> string \<Rightarrow> json option \<Rightarrow> engine \<Rightarrow> engine" where
  "on_screenshot c now rnd d s =
     (let s1 = (if \<not> map_has c (senders s) then assign_sender c now rnd s else s);
          senderInfo = map_of (senders s1) c;
          sender = map_option sid senderInfo
      in if length (browserClients s1) > 0
         then broadcastToBrowsers (Screenshot d sender None) s1
         else
           let buf = (if length (screenshotBuffer s1) \<ge> MAX_BUFFER_SIZE
                      then tl (screenshotBuffer s1) else screenshotBuffer s1)
           in s1\<lparr>screenshotBuffer := buf @ [\<lparr>sdata = d, senderId = sender, timestamp = now\<rparr>]\<rparr>)"

definition on_code :: "conn \<Rightarrow> nat \<Rightarrow> string \<Rightarrow> json option \<Rightarrow> engine \<Rightarrow> engine" where
  "on_code c now text d s =
     (if length (senders s) > 0
      then fold (\<lambda>(sc, info) st. if sc \<noteq> c then send_if_open sc (Raw text) st else st)
                (senders s) s
      else
        let buf = (if length (codeBuffer s) \<ge> MAX_BUFFER_SIZE
                   then tl (codeBuffer s) else codeBuffer s);
            s1 = s\<lparr>codeBuffer := buf @ [\<lparr>cdata = d, ctimestamp = now\<rparr>]\<rparr>
        in send_if_open c NoSenders s1)"

definition cancel_registerTimer :: "conn \<Rightarrow> engine \<Rightarrow> engine" where
  "cancel_registerTimer c s =
     (case registerTimer (conns s c) of
        None \<Rightarrow> s
      | Some h \<Rightarrow>
          (clearTimeout h s)\<lparr>conns := (conns s)(c := (conns s c)\<lparr>registerTimer := None\<rparr>)\<rparr>)"

definition drop_sender :: "conn \<Rightarrow> engine \<Rightarrow> engine" where
  "drop_sender c s =
     (case map_of (senders s) c of
        None \<Rightarrow> s
      | Some info \<Rightarrow>
          broadcastToBrowsers (SenderDisconnected info) (s\<lparr>senders := map_delete c (senders s)\<rparr>))"

definition on_register_browser :: "conn \<Rightarrow> nat \<Rightarrow> engine \<Rightarrow> engine" where
  "on_register_browser c now s =
     (let s1 = s\<lparr>conns := (conns s)(c := (conns s c)\<lparr>isBrowser := True\<rparr>)\<rparr>;
          s2 = cancel_registerTimer c s1;
          s3 = s2\<lparr>browserClients := set_add c (browserClients s2)\<rparr>;
          s4 = drop_sender c s3;
          current = map snd (senders s4)
      in if readyState (conns s4 c) = 1 then
           let s5 = ws_send c (CurrentSenders current) s4
           in if length (screenshotBuffer s5) > 0
              then setTimeout (FlushStart c) 200 now s5
              else s5
         else s4)"

definition on_message :: "conn \<Rightarrow> nat \<Rightarrow> string \<Rightarrow> inbound \<Rightarrow> engine \<Rightarrow> engine" where
  "on_message c now rnd message s =
     (case parsed message of
        None \<Rightarrow> s
      | Some data \<Rightarrow>
          if mtype data = ''screenshot'' then on_screenshot c now rnd (mdata data) s
          else if mtype data = ''code'' then on_code c now (raw message) (mdata data) s
          else if mtype data = ''register_browser'' then on_register_browser c now s
          else s)"

definition on_close :: "conn \<Rightarrow> engine \<Rightarrow> engine" where
  "on_close c s =
     (let s1 = cancel_registerTimer c s;
          s2 = drop_sender c s1
      in if c \<in> set (browserClients s2)
         then s2\<lparr>browserClients := set_delete c (browserClients s2)\<rparr>
         else s2)"

subsection \<open>The event loop\<close>

text \<open>
  One event at a time. The transport announces a connection once, delivers messages, pongs and
  the close event only for a connection it has announced and not yet closed, and has the
  object in state 3 (CLOSED) and out of \<open>wss.clients\<close> when the close handler runs. A timer
  fires when it is pending and due; the two interval timers stay pending.
\<close>

datatype event =
    Connect conn "socket option"
  | Message conn inbound
  | Close conn
  | Pong conn
  | Fire nat

definition run_task :: "task \<Rightarrow> nat \<Rightarrow> string \<Rightarrow> engine \<Rightarrow> engine" where
  "run_task tk now rnd s =
     (case tk of
        RegisterTimer c \<Rightarrow> registerTimer_cb c now rnd s
      | FlushStart c \<Rightarrow> flush_start_cb c now s
      | PacedSend c msg \<Rightarrow> paced_send_cb c msg s
      | ClearShots \<Rightarrow> clear_shots_cb s
      | Sweep \<Rightarrow> cleanExpiredBuffers now s
      | Heartbeat \<Rightarrow> keepalive s)"

definition rearm :: "timer \<Rightarrow> nat \<Rightarrow> timer option" where
  "rearm tm now =
     (case task tm of
        Sweep \<Rightarrow> Some (tm\<lparr>due := now + 10 * 60 * 1000\<rparr>)
      | Heartbeat \<Rightarrow> Some (tm\<lparr>due := now + 30000\<rparr>)
      | _ \<Rightarrow> None)"

definition fire :: "nat \<Rightarrow> nat \<Rightarrow> string \<Rightarrow> engine \<Rightarrow> engine option" where
  "fire h now rnd s =
     (case find (\<lambda>tm. tid tm = h) (timers s) of
        None \<Rightarrow> None
      | Some tm \<Rightarrow>
          if now < due tm then None
          else
            let rest = filter (\<lambda>t. tid t \<noteq> h) (timers s);
                s1 = s\<lparr>timers := (case rearm tm now of None \<Rightarrow> rest | Some tm' \<Rightarrow> rest @ [tm'])\<rparr>
            in Some (run_task (task tm) now rnd s1))"

fun step :: "nat \<Rightarrow> string \<Rightarrow> event \<Rightarrow> engine \<Rightarrow> engine option" where
  "step now rnd (Connect c so) s =
     (if c \<in> set (clients s) then None else Some (on_connection c so now s))"
| "step now rnd (Message c m) s =
     (if c \<in> set (clients s) then Some (on_message c now rnd m s) else None)"
| "step now rnd (Close c) s =
     (if c \<in> set (clients s)
      then Some (on_close c (s\<lparr>conns := (conns s)(c := (conns s c)\<lparr>readyState := 3\<rparr>),
                              clients := set_delete c (clients s)\<rparr>))
      else None)"
| "step now rnd (Pong c) s =
     (if c \<in> set (clients s) then Some (heartbeat c s) else None)"
| "step now rnd (Fire h) s = fire h now rnd s"

fun run :: "(nat \<times> string \<times> event) list \<Rightarrow> engine \<Rightarrow> engine option" where
  "run [] s = Some s"
| "run ((now, rnd, e) # es) s =
     (case step now rnd e s of None \<Rightarrow> None | Some s' \<Rightarrow> run es s')"

text \<open>The server as started at time \<open>t0\<close>: nothing registered, the two interval timers pending.\<close>

definition init :: "nat \<Rightarrow> engine" where
  "init t0 =
     \<lparr>conns = (\<lambda>_. \<lparr>readyState = 0, isAlive = False, isBrowser = False,
                     registerTimer = None, socket = None\<rparr>),
      clients = [], senders = [], browserClients = [],
      screenshotBuffer = [], codeBuffer = [],
      timers = [\<lparr>tid = 0, due = t0 + 10 * 60 * 1000, task = Sweep\<rparr>,
                \<lparr>tid = 1, due = t0 + 30000, task = Heartbeat\<rparr>],
      next_tid = 2, outbox = []\<rparr>"

subsection \<open>Vocabulary of the statements\<close>

text \<open>The members of a list of connections that a guarded send reaches.\<close>

definition open_conns :: "engine \<Rightarrow> conn list \<Rightarrow> conn list" where
  "open_conns s cs = filter (\<lambda>c. readyState (conns s c) = 1) cs"

text \<open>What a handler wrote: the frames of the outbox after it that were not there before.\<close>

definition sent :: "engine \<Rightarrow> engine \<Rightarrow> (conn \<times> frame) list" where
  "sent s s' = drop (length (outbox s)) (outbox s')"

text \<open>The frames that come out of the command buffer.\<close>

fun is_flushed_command :: "frame \<Rightarrow> bool" where
  "is_flushed_command (CodeMsg d) = True"
| "is_flushed_command f = False"

definition flushed_commands :: "engine \<Rightarrow> (conn \<times> frame) list" where
  "flushed_commands s = filter (\<lambda>x. is_flushed_command (snd x)) (outbox s)"

text \<open>The age of a buffered entry at time \<open>now\<close>, as line 24 computes it.\<close>

definition shot_age :: "nat \<Rightarrow> shot \<Rightarrow> int" where
  "shot_age now msg = int now - int (timestamp msg)"

definition cmd_age :: "nat \<Rightarrow> cmd \<Rightarrow> int" where
  "cmd_age now msg = int now - int (ctimestamp msg)"


definition payload :: "inbound \<Rightarrow> json option" where
  "payload m = (case parsed m of None \<Rightarrow> None | Some e \<Rightarrow> mdata e)"





fun clears_or_sweeps :: "task \<Rightarrow> bool" where
  "clears_or_sweeps ClearShots = True"
| "clears_or_sweeps Sweep = True"
| "clears_or_sweeps tk = False"






definition is_open :: "conn \<Rightarrow> engine \<Rightarrow> bool" where
  "is_open c s = (readyState (conns s c) = 1)"

text \<open>What a callback scheduled: the timers pending after it that were not there before.\<close>

definition scheduled :: "engine \<Rightarrow> engine \<Rightarrow> timer list" where
  "scheduled s s' = drop (length (timers s)) (timers s')"

text \<open>Everything written so far to one connection, and the paced sends pending for it.\<close>

definition frames_to :: "conn \<Rightarrow> engine \<Rightarrow> frame list" where
  "frames_to c s = map snd (filter (\<lambda>x. fst x = c) (outbox s))"

fun is_paced_for :: "conn \<Rightarrow> task \<Rightarrow> bool" where
  "is_paced_for c (PacedSend c' msg) = (c' = c)"
| "is_paced_for c tk = False"

definition paced_for :: "conn \<Rightarrow> engine \<Rightarrow> timer list" where
  "paced_for c s = filter (\<lambda>tm. is_paced_for c (task tm)) (timers s)"

subsection \<open>Concrete frames and states\<close>

definition quoted :: "string \<Rightarrow> string" where
  "quoted t = CHR 0x22 # t @ [CHR 0x22]"

definition msg_screenshot :: "json \<Rightarrow> inbound" where
  "msg_screenshot d =
     \<lparr>raw = ''{'' @ quoted ''type'' @ '':'' @ quoted ''screenshot'' @ '',''
              @ quoted ''data'' @ '':'' @ d @ ''}'',
      parsed = Some \<lparr>mtype = ''screenshot'', mdata = Some d\<rparr>\<rparr>"

definition msg_code :: "json \<Rightarrow> inbound" where
  "msg_code d =
     \<lparr>raw = ''{'' @ quoted ''type'' @ '':'' @ quoted ''code'' @ '',''
              @ quoted ''data'' @ '':'' @ d @ ''}'',
      parsed = Some \<lparr>mtype = ''code'', mdata = Some d\<rparr>\<rparr>"

definition msg_register :: inbound where
  "msg_register =
     \<lparr>raw = ''{'' @ quoted ''type'' @ '':'' @ quoted ''register_browser'' @ ''}'',
      parsed = Some \<lparr>mtype = ''register_browser'', mdata = None\<rparr>\<rparr>"

definition peer_a :: socket where
  "peer_a = \<lparr>remoteAddress = Some ''10.0.0.5'', remotePort = Some 51000\<rparr>"

text \<open>Connection 1 has sent one screenshot while nobody was watching.\<close>

definition one_sender :: engine where
  "one_sender =
     on_message 1 5 ''k3x9a'' (msg_screenshot ''1'')
       (on_connection 1 (Some peer_a) 0 (init 0))"

text \<open>The same, and connection 2 has then registered as a browser.\<close>

definition sender_and_browser :: engine where
  "sender_and_browser =
     on_message 2 20 ''q0q0q'' msg_register (on_connection 2 None 10 one_sender)"

text \<open>Two senders: connection 3 has sent a screenshot too.\<close>

definition two_senders :: engine where
  "two_senders =
     on_message 3 7 ''m2m2m'' (msg_screenshot ''2'') (on_connection 3 None 6 one_sender)"

text \<open>Connection 2 alone, registered as a browser.\<close>

definition browser_alone :: engine where
  "browser_alone = on_message 2 20 ''q0q0q'' msg_register (on_connection 2 None 10 (init 0))"

text \<open>
  The browser has sent two commands that found no sender; connection 3 has just connected.
\<close>

definition waiting_commands :: engine where
  "waiting_commands =
     on_connection 3 None 100
       (on_message 2 40 ''q0q0q'' (msg_code ''8'')
         (on_message 2 30 ''q0q0q'' (msg_code ''7'') browser_alone))"

text \<open>
  A browser that comes late. Connection 1 sends a screenshot 5 ms after the start and closes;
  the sweep runs every ten minutes, the eighteenth time at 10800000 ms, when the entry is
  10799995 ms old; connection 2 connects and registers just after that, and its flush runs
  200 ms later. (The keepalive timer, which touches no buffer, is left pending.)
\<close>

definition late_browser_until_flush :: "(nat \<times> string \<times> event) list" where
  "late_browser_until_flush =
     [(0, ''aaaaa'', Connect 1 (Some peer_a)),
      (5, ''k3x9a'', Message 1 (msg_screenshot ''1'')),
      (800, ''bbbbb'', Fire 2),
      (1000, ''ccccc'', Close 1)]
     @ map (\<lambda>k. (k * 600000, ''ddddd'', Fire 0)) [1..<19]
     @ [(10800001, ''eeeee'', Connect 2 None),
        (10800002, ''fffff'', Message 2 msg_register)]"

definition late_browser :: "(nat \<times> string \<times> event) list" where
  "late_browser =
     late_browser_until_flush
     @ [(10800202, ''ggggg'', Fire 4),
        (10800202, ''hhhhh'', Fire 5)]"

text \<open>
  Two browsers, 160 ms apart. Connection 1 sends a screenshot to a server without browsers.
  Connection 2 registers at 100 ms: its flush starts at 300 ms, sends the one entry and sets
  the clearing timer for 450 ms. Connection 3 registers at 260 ms, the buffer still holding
  the entry: its flush starts at 460 ms.
\<close>

definition two_browsers_until_second :: "(nat \<times> string \<times> event) list" where
  "two_browsers_until_second =
     [(0, ''aaaaa'', Connect 1 (Some peer_a)),
      (5, ''k3x9a'', Message 1 (msg_screenshot ''1'')),
      (10, ''bbbbb'', Connect 2 None),
      (20, ''ccccc'', Connect 3 None),
      (100, ''ddddd'', Message 2 msg_register)]"

definition two_browsers :: "(nat \<times> string \<times> event) list" where
  "two_browsers =
     two_browsers_until_second
     @ [(260, ''eeeee'', Message 3 msg_register),
        (300, ''fffff'', Fire 5),
        (300, ''ggggg'', Fire 7),
        (450, ''hhhhh'', Fire 8),
        (460, ''iiiii'', Fire 6)]"





text \<open>A connection registers as a browser and then sends a screenshot.\<close>

definition browser_sends_screenshot :: "(nat \<times> string \<times> event) list" where
  "browser_sends_screenshot =
     [(0, ''aaaaa'', Connect 7 None),
      (10, ''bbbbb'', Message 7 msg_register),
      (20, ''abcde'', Message 7 (msg_screenshot ''1''))]"

text \<open>The same with a second browser watching, the screenshot coming after the 800 ms.\<close>

definition browser_sends_screenshot_late :: "(nat \<times> string \<times> event) list" where
  "browser_sends_screenshot_late =
     [(0, ''aaaaa'', Connect 7 None),
      (5, ''bbbbb'', Connect 8 None),
      (10, ''ccccc'', Message 7 msg_register),
      (15, ''ddddd'', Message 8 msg_register),
      (900, ''abcde'', Message 7 (msg_screenshot ''1''))]"

section \<open>Properties\<close>

subsection \<open>What each callback does to the state\<close>

lemma fold_send_if_open:
  "fold (\<lambda>client. send_if_open client p) xs s
     = s\<lparr>outbox := outbox s @ map (\<lambda>c. (c, p)) (open_conns s xs)\<rparr>"
  by (induction xs arbitrary: s) (simp_all add: send_if_open_def ws_send_def open_conns_def)

lemma broadcast_eq:
  "broadcastToBrowsers p s
     = s\<lparr>outbox := outbox s @ map (\<lambda>c. (c, p)) (open_conns s (browserClients s))\<rparr>"
  by (simp add: broadcastToBrowsers_def fold_send_if_open)

lemma map_set_absent: "map_of m k = None \<Longrightarrow> map_set k v m = m @ [(k, v)]"
  by (induction m) (auto split: if_splits)

lemma map_delete_absent: "map_of m k = None \<Longrightarrow> map_delete k m = m"
  by (induction m) (auto simp add: map_delete_def split: if_splits)

lemma assign_sender_eq:
  "\<not> map_has c (senders s) \<Longrightarrow>
   assign_sender c now rnd s
     = s\<lparr>senders := senders s @ [(c, \<lparr>sid = new_id now rnd, addr = peer_addr (socket (conns s c))\<rparr>)],
         outbox := outbox s @ map (\<lambda>b. (b, SenderConnected \<lparr>sid = new_id now rnd, addr = peer_addr (socket (conns s c))\<rparr>))
                                  (open_conns s (browserClients s))\<rparr>"
  by (simp add: assign_sender_def broadcast_eq map_has_def map_set_absent open_conns_def Let_def)

lemma fold_code_flush:
  "fold (\<lambda>msg. send_if_open c (CodeMsg (cdata msg))) ms s
     = s\<lparr>outbox := outbox s @ (if readyState (conns s c) = 1
                                 then map (\<lambda>msg. (c, CodeMsg (cdata msg))) ms else [])\<rparr>"
  by (induction ms arbitrary: s) (simp_all add: send_if_open_def ws_send_def)

lemma registerTimer_cb_eq:
  assumes "\<not> isBrowser (conns s c)" "\<not> map_has c (senders s)"
  shows "registerTimer_cb c now rnd s
     = s\<lparr>senders := senders s @ [(c, \<lparr>sid = new_id now rnd, addr = peer_addr (socket (conns s c))\<rparr>)],
         outbox := outbox s @ map (\<lambda>b. (b, SenderConnected \<lparr>sid = new_id now rnd, addr = peer_addr (socket (conns s c))\<rparr>))
                                  (open_conns s (browserClients s))
                   @ (if readyState (conns s c) = 1
                      then map (\<lambda>msg. (c, CodeMsg (cdata msg))) (codeBuffer s) else []),
         codeBuffer := []\<rparr>"
  using assms by (simp add: registerTimer_cb_def assign_sender_eq fold_code_flush Let_def)

lemma fold_code_forward:
  "fold (\<lambda>(sc, info) st. if sc \<noteq> c then send_if_open sc (Raw text) st else st) m s
     = s\<lparr>outbox := outbox s @ map (\<lambda>sc. (sc, Raw text))
                                   (filter (\<lambda>sc. sc \<noteq> c) (open_conns s (map fst m)))\<rparr>"
  by (induction m arbitrary: s)
     (auto simp add: send_if_open_def ws_send_def open_conns_def)

lemma on_code_forward:
  "senders s \<noteq> [] \<Longrightarrow>
   on_code c now text d s
     = s\<lparr>outbox := outbox s @ map (\<lambda>sc. (sc, Raw text))
                                   (filter (\<lambda>sc. sc \<noteq> c) (open_conns s (map fst (senders s))))\<rparr>"
  by (simp add: on_code_def fold_code_forward)

lemma on_code_buffer:
  "senders s = [] \<Longrightarrow>
   on_code c now text d s
     = s\<lparr>codeBuffer := (if MAX_BUFFER_SIZE \<le> length (codeBuffer s)
                         then tl (codeBuffer s) else codeBuffer s)
                        @ [\<lparr>cdata = d, ctimestamp = now\<rparr>],
         outbox := outbox s @ (if readyState (conns s c) = 1 then [(c, NoSenders)] else [])\<rparr>"
  by (simp add: on_code_def send_if_open_def ws_send_def Let_def)

lemma on_message_code:
  "parsed m = Some e \<Longrightarrow> mtype e = ''code'' \<Longrightarrow>
   on_message c now rnd m s = on_code c now (raw m) (mdata e) s"
  by (simp add: on_message_def)

lemma on_message_screenshot:
  "parsed m = Some e \<Longrightarrow> mtype e = ''screenshot'' \<Longrightarrow>
   on_message c now rnd m s = on_screenshot c now rnd (mdata e) s"
  by (simp add: on_message_def)

lemma on_message_register:
  "parsed m = Some e \<Longrightarrow> mtype e = ''register_browser'' \<Longrightarrow>
   on_message c now rnd m s = on_register_browser c now s"
  by (simp add: on_message_def)

lemma on_screenshot_new:
  assumes "\<not> map_has c (senders s)"
  shows "on_screenshot c now rnd d s
     = (let info = \<lparr>sid = new_id now rnd, addr = peer_addr (socket (conns s c))\<rparr>;
            bs = open_conns s (browserClients s)
        in if browserClients s \<noteq> []
           then s\<lparr>senders := senders s @ [(c, info)],
                  outbox := outbox s @ map (\<lambda>b. (b, SenderConnected info)) bs
                            @ map (\<lambda>b. (b, Screenshot d (Some (sid info)) None)) bs\<rparr>
           else s\<lparr>senders := senders s @ [(c, info)],
                  screenshotBuffer :=
                    (if MAX_BUFFER_SIZE \<le> length (screenshotBuffer s)
                     then tl (screenshotBuffer s) else screenshotBuffer s)
                    @ [\<lparr>sdata = d, senderId = Some (sid info), timestamp = now\<rparr>]\<rparr>)"
  using assms
  by (simp add: on_screenshot_def assign_sender_eq broadcast_eq Let_def open_conns_def
        map_add_def map_has_def)

lemma on_screenshot_known:
  assumes "map_has c (senders s)"
  shows "on_screenshot c now rnd d s
     = (let sender = map_option sid (map_of (senders s) c)
        in if browserClients s \<noteq> []
           then s\<lparr>outbox := outbox s @ map (\<lambda>b. (b, Screenshot d sender None))
                                           (open_conns s (browserClients s))\<rparr>
           else s\<lparr>screenshotBuffer :=
                    (if MAX_BUFFER_SIZE \<le> length (screenshotBuffer s)
                     then tl (screenshotBuffer s) else screenshotBuffer s)
                    @ [\<lparr>sdata = d, senderId = sender, timestamp = now\<rparr>]\<rparr>)"
  using assms
  by (simp add: on_screenshot_def broadcast_eq Let_def)

lemma fold_paced:
  "fold (\<lambda>(index, msg). setTimeout (PacedSend c msg) (index * 50) now) (enumerate n xs) s
     = s\<lparr>timers := timers s @ map (\<lambda>i. \<lparr>tid = next_tid s + i, due = now + (n + i) * 50,
                                           task = PacedSend c (xs ! i)\<rparr>) [0..<length xs],
         next_tid := next_tid s + length xs\<rparr>"
proof (induction xs arbitrary: n s)
  case Nil
  then show ?case by simp
next
  case (Cons x xs)
  show ?case
    by (simp add: Cons.IH map_upt_Suc del: upt_Suc) (simp add: setTimeout_def)
qed

lemma flush_start_cb_eq:
  "flush_start_cb c now s
     = s\<lparr>timers := timers s
                    @ map (\<lambda>i. \<lparr>tid = next_tid s + i, due = now + i * 50,
                                  task = PacedSend c (screenshotBuffer s ! i)\<rparr>)
                          [0..<length (screenshotBuffer s)]
                    @ [\<lparr>tid = next_tid s + length (screenshotBuffer s),
                        due = now + (length (screenshotBuffer s) * 50 + 100), task = ClearShots\<rparr>],
         next_tid := Suc (next_tid s + length (screenshotBuffer s))\<rparr>"
  by (simp add: flush_start_cb_def fold_paced setTimeout_def Let_def)

lemma drop_sender_eq:
  "drop_sender c s
     = s\<lparr>senders := map_delete c (senders s),
         outbox := outbox s @ (case map_of (senders s) c of
                                 None \<Rightarrow> []
                               | Some info \<Rightarrow> map (\<lambda>b. (b, SenderDisconnected info))
                                                 (open_conns s (browserClients s)))\<rparr>"
  by (simp add: drop_sender_def broadcast_eq map_delete_absent open_conns_def split: option.splits)

lemma cancel_registerTimer_eq:
  "cancel_registerTimer c s
     = s\<lparr>timers := filter (\<lambda>tm. Some (tid tm) \<noteq> registerTimer (conns s c)) (timers s),
         conns := (conns s)(c := (conns s c)\<lparr>registerTimer := None\<rparr>)\<rparr>"
  by (cases "registerTimer (conns s c)")
     (auto simp add: cancel_registerTimer_def clearTimeout_def fun_upd_idem)

lemma filter_except_true: "P c \<Longrightarrow> filter (\<lambda>x. x \<noteq> c \<longrightarrow> P x) xs = filter P xs"
  by (rule filter_cong) auto

lemma filter_except_false:
  "\<not> P c \<Longrightarrow> filter (\<lambda>x. x \<noteq> c \<and> (x \<noteq> c \<longrightarrow> P x)) xs = filter P xs"
  by (rule filter_cong) auto

lemma on_register_browser_eq:
  "on_register_browser c now s
     = (let isOpen = (readyState (conns s c) = 1);
            bs = set_add c (browserClients s)
        in s\<lparr>conns := (conns s)(c := (conns s c)\<lparr>isBrowser := True, registerTimer := None\<rparr>),
             browserClients := bs,
             senders := map_delete c (senders s),
             timers := filter (\<lambda>tm. Some (tid tm) \<noteq> registerTimer (conns s c)) (timers s)
                       @ (if isOpen \<and> screenshotBuffer s \<noteq> []
                          then [\<lparr>tid = next_tid s, due = now + 200, task = FlushStart c\<rparr>] else []),
             next_tid := (if isOpen \<and> screenshotBuffer s \<noteq> []
                          then Suc (next_tid s) else next_tid s),
             outbox := outbox s
                       @ (case map_of (senders s) c of
                            None \<Rightarrow> []
                          | Some info \<Rightarrow> map (\<lambda>b. (b, SenderDisconnected info)) (open_conns s bs))
                       @ (if isOpen then [(c, CurrentSenders (map snd (map_delete c (senders s))))]
                          else [])\<rparr>)"
  by (simp add: on_register_browser_def cancel_registerTimer_eq drop_sender_eq Let_def
        ws_send_def setTimeout_def open_conns_def filter_except_true filter_except_false
      split: option.splits)


lemma flushed_append:
  "outbox s' = outbox s @ xs \<Longrightarrow> \<forall>x\<in>set xs. \<not> is_flushed_command (snd x) \<Longrightarrow>
   flushed_commands s' = flushed_commands s"
  by (simp add: flushed_commands_def)

lemma flushed_on_screenshot: "flushed_commands (on_screenshot c now rnd d s) = flushed_commands s"
  by (cases "map_has c (senders s)")
     (simp_all add: on_screenshot_new on_screenshot_known flushed_commands_def Let_def filter_map o_def)

lemma flushed_on_code: "flushed_commands (on_code c now text d s) = flushed_commands s"
  by (cases "senders s = []")
     (simp_all add: on_code_forward on_code_buffer flushed_commands_def filter_map o_def)

lemma flushed_on_register_browser:
  "flushed_commands (on_register_browser c now s) = flushed_commands s"
  by (simp add: on_register_browser_eq flushed_commands_def Let_def filter_map o_def
      split: option.splits)

lemma flushed_on_message: "flushed_commands (on_message c now rnd m s) = flushed_commands s"
  by (simp add: on_message_def flushed_on_screenshot flushed_on_code flushed_on_register_browser
      split: option.splits)

lemma flushed_on_close: "flushed_commands (on_close c s) = flushed_commands s"
  by (simp add: on_close_def cancel_registerTimer_eq drop_sender_eq flushed_commands_def Let_def
        filter_map o_def split: option.splits)

lemma flushed_keepalive_fold:
  "flushed_commands
     (fold (\<lambda>c st.
            if \<not> isAlive (conns st c) then ws_terminate c st
            else send_if_open c Ping (st\<lparr>conns := (conns st)(c := (conns st c)\<lparr>isAlive := False\<rparr>)\<rparr>))
          cs s) = flushed_commands s"
  by (induction cs arbitrary: s)
     (simp_all add: ws_terminate_def send_if_open_def ws_send_def flushed_commands_def)

lemma flushed_run_task:
  "\<forall>c. tk \<noteq> RegisterTimer c \<Longrightarrow> flushed_commands (run_task tk now rnd s) = flushed_commands s"
proof (cases tk)
  case Heartbeat
  then show ?thesis by (simp add: run_task_def keepalive_def flushed_keepalive_fold)
qed (simp_all add: run_task_def flush_start_cb_eq paced_send_cb_def send_if_open_def ws_send_def
        clear_shots_cb_def cleanExpiredBuffers_def flushed_commands_def)

lemma flushed_step:
  "step now rnd ev s = Some s' \<Longrightarrow> \<forall>h. ev \<noteq> Fire h \<Longrightarrow> flushed_commands s' = flushed_commands s"
proof (cases ev)
  case (Connect c so)
  assume "step now rnd ev s = Some s'"
  with Connect show ?thesis
    by (auto simp add: on_connection_def setTimeout_def flushed_commands_def split: if_splits)
next
  case (Message c m)
  assume "step now rnd ev s = Some s'"
  with Message show ?thesis
    by (auto simp add: flushed_on_message split: if_splits)
next
  case (Close c)
  assume "step now rnd ev s = Some s'"
  with Close have "flushed_commands s'
      = flushed_commands (s\<lparr>conns := (conns s)(c := (conns s c)\<lparr>readyState := 3\<rparr>),
                           clients := set_delete c (clients s)\<rparr>)"
    by (auto simp add: flushed_on_close split: if_splits)
  then show ?thesis by (simp add: flushed_commands_def)
next
  case (Pong c)
  assume "step now rnd ev s = Some s'"
  with Pong show ?thesis
    by (auto simp add: heartbeat_def flushed_commands_def split: if_splits)
next
  case (Fire h)
  assume "\<forall>h. ev \<noteq> Fire h"
  with Fire show ?thesis by simp
qed

lemma flushed_fire:
  assumes "fire h now rnd s = Some s'"
    and "find (\<lambda>tm. tid tm = h) (timers s) = Some tm"
    and "\<forall>c. task tm \<noteq> RegisterTimer c"
  shows "flushed_commands s' = flushed_commands s"
proof -
  from assms(1,2) obtain s1 where s': "s' = run_task (task tm) now rnd s1" and o: "outbox s1 = outbox s"
    by (auto simp add: fire_def Let_def split: if_splits)
  from o have "flushed_commands s1 = flushed_commands s" by (simp add: flushed_commands_def)
  with s' assms(3) show ?thesis by (simp add: flushed_run_task)
qed


lemma timer_skips_browser: "isBrowser (conns s c) \<Longrightarrow> registerTimer_cb c now rnd s = s"
  by (simp add: registerTimer_cb_def)

lemma fire_runs_task:
  assumes "find (\<lambda>tm. tid tm = h) (timers s) = Some tm" and "due tm \<le> now"
  shows "\<exists>ts. fire h now rnd s = Some (run_task (task tm) now rnd (s\<lparr>timers := ts\<rparr>))"
  using assms by (auto simp add: fire_def Let_def)

lemma registries_keepalive_fold:
  "senders (fold (\<lambda>c st.
            if \<not> isAlive (conns st c) then ws_terminate c st
            else send_if_open c Ping (st\<lparr>conns := (conns st)(c := (conns st c)\<lparr>isAlive := False\<rparr>)\<rparr>))
          cs s) = senders s
   \<and> browserClients (fold (\<lambda>c st.
            if \<not> isAlive (conns st c) then ws_terminate c st
            else send_if_open c Ping (st\<lparr>conns := (conns st)(c := (conns st c)\<lparr>isAlive := False\<rparr>)\<rparr>))
          cs s) = browserClients s"
  by (induction cs arbitrary: s)
     (simp_all add: ws_terminate_def send_if_open_def ws_send_def)

lemma registries_untouched_by_timers:
  "\<forall>c. tk \<noteq> RegisterTimer c \<Longrightarrow>
   senders (run_task tk now rnd s) = senders s
   \<and> browserClients (run_task tk now rnd s) = browserClients s"
  by (cases tk)
     (simp_all add: run_task_def flush_start_cb_eq paced_send_cb_def send_if_open_def ws_send_def
        clear_shots_cb_def cleanExpiredBuffers_def keepalive_def registries_keepalive_fold)

lemma registries_untouched_by_code:
  "senders (on_code c now text d s) = senders s
   \<and> browserClients (on_code c now text d s) = browserClients s"
  by (cases "senders s = []") (simp_all add: on_code_forward on_code_buffer)

lemma registries_untouched_by_other_messages:
  "parsed m = None \<or> (\<exists>e. parsed m = Some e \<and> mtype e \<noteq> ''screenshot''
      \<and> mtype e \<noteq> ''register_browser'') \<Longrightarrow>
   senders (on_message c now rnd m s) = senders s
   \<and> browserClients (on_message c now rnd m s) = browserClients s"
  by (auto simp add: on_message_def registries_untouched_by_code)

lemma registries_untouched_by_connection:
  "senders (on_connection c so now s) = senders s
   \<and> browserClients (on_connection c so now s) = browserClients s
   \<and> senders (heartbeat c s) = senders s
   \<and> browserClients (heartbeat c s) = browserClients s"
  by (simp add: on_connection_def setTimeout_def heartbeat_def)


lemma buffer_keepalive_fold:
  "screenshotBuffer (fold (\<lambda>c st.
            if \<not> isAlive (conns st c) then ws_terminate c st
            else send_if_open c Ping (st\<lparr>conns := (conns st)(c := (conns st c)\<lparr>isAlive := False\<rparr>)\<rparr>))
          cs s) = screenshotBuffer s"
  by (induction cs arbitrary: s)
     (simp_all add: ws_terminate_def send_if_open_def ws_send_def)

lemma registerTimer_cb_buffers:
  "screenshotBuffer (registerTimer_cb c now rnd s) = screenshotBuffer s
   \<and> browserClients (registerTimer_cb c now rnd s) = browserClients s"
proof (cases "\<not> isBrowser (conns s c) \<and> \<not> map_has c (senders s)")
  case True
  then show ?thesis by (simp add: registerTimer_cb_eq)
next
  case False
  then have "registerTimer_cb c now rnd s = s"
    by (auto simp add: registerTimer_cb_def)
  then show ?thesis by simp
qed

lemma quiet_task:
  "\<not> clears_or_sweeps tk \<Longrightarrow>
   screenshotBuffer (run_task tk now rnd s) = screenshotBuffer s
   \<and> browserClients (run_task tk now rnd s) = browserClients s"
  by (cases tk)
     (simp_all add: run_task_def registerTimer_cb_buffers flush_start_cb_eq paced_send_cb_def
        send_if_open_def ws_send_def keepalive_def buffer_keepalive_fold registries_keepalive_fold)







lemma on_screenshot_bounded:
  "length (screenshotBuffer s) \<le> MAX_BUFFER_SIZE \<Longrightarrow>
   length (screenshotBuffer (on_screenshot c now rnd d s)) \<le> MAX_BUFFER_SIZE"
  by (cases "map_has c (senders s)")
     (auto simp add: on_screenshot_new on_screenshot_known Let_def MAX_BUFFER_SIZE_def)

lemma on_message_bounded:
  "length (screenshotBuffer s) \<le> MAX_BUFFER_SIZE \<Longrightarrow>
   length (screenshotBuffer (on_message c now rnd m s)) \<le> MAX_BUFFER_SIZE"
proof (cases "parsed m")
  case None
  assume "length (screenshotBuffer s) \<le> MAX_BUFFER_SIZE"
  with None show ?thesis by (simp add: on_message_def)
next
  case (Some e)
  assume b: "length (screenshotBuffer s) \<le> MAX_BUFFER_SIZE"
  have "screenshotBuffer (on_code c now t d s) = screenshotBuffer s" for t d
    by (cases "senders s = []") (simp_all add: on_code_forward on_code_buffer)
  moreover have "screenshotBuffer (on_register_browser c now s) = screenshotBuffer s"
    by (simp add: on_register_browser_eq Let_def)
  ultimately show ?thesis
    using Some b on_screenshot_bounded [OF b] by (simp add: on_message_def)
qed

lemma run_task_bounded:
  "length (screenshotBuffer s) \<le> MAX_BUFFER_SIZE \<Longrightarrow>
   length (screenshotBuffer (run_task tk now rnd s)) \<le> MAX_BUFFER_SIZE"
proof (cases "clears_or_sweeps tk")
  case False
  assume "length (screenshotBuffer s) \<le> MAX_BUFFER_SIZE"
  with quiet_task [OF False, of now rnd s] show ?thesis by simp
next
  case True
  assume b: "length (screenshotBuffer s) \<le> MAX_BUFFER_SIZE"
  have "length (filter P (screenshotBuffer s)) \<le> MAX_BUFFER_SIZE" for P
    using b by (rule order_trans [OF length_filter_le])
  with True show ?thesis
    by (cases tk) (simp_all add: run_task_def clear_shots_cb_def cleanExpiredBuffers_def)
qed

lemma step_bounded:
  assumes "length (screenshotBuffer s) \<le> MAX_BUFFER_SIZE" and "step now rnd ev s = Some s'"
  shows "length (screenshotBuffer s') \<le> MAX_BUFFER_SIZE"
proof (cases ev)
  case (Connect c so)
  with assms show ?thesis
    by (auto simp add: on_connection_def setTimeout_def split: if_splits)
next
  case (Message c m)
  with assms on_message_bounded [OF assms(1), of c now rnd m] show ?thesis
    by (auto split: if_splits)
next
  case (Close c)
  with assms show ?thesis
    by (auto simp add: on_close_def cancel_registerTimer_eq drop_sender_eq Let_def
          split: if_splits)
next
  case (Pong c)
  with assms show ?thesis
    by (auto simp add: heartbeat_def split: if_splits)
next
  case (Fire h)
  with assms(2) obtain tm where f: "find (\<lambda>tm. tid tm = h) (timers s) = Some tm"
    by (auto simp add: fire_def split: option.splits)
  with Fire assms(2) obtain ts where "s' = run_task (task tm) now rnd (s\<lparr>timers := ts\<rparr>)"
    by (auto simp add: fire_def Let_def split: if_splits)
  with run_task_bounded [of "s\<lparr>timers := ts\<rparr>" "task tm" now rnd] assms(1) show ?thesis
    by simp
qed

lemma run_bounded:
  "length (screenshotBuffer s) \<le> MAX_BUFFER_SIZE \<Longrightarrow> run evs s = Some s' \<Longrightarrow>
   length (screenshotBuffer s') \<le> MAX_BUFFER_SIZE"
proof (induction evs arbitrary: s)
  case Nil
  then show ?case by simp
next
  case (Cons x evs)
  obtain now rnd ev where x: "x = (now, rnd, ev)"
    by (cases x) auto
  from Cons.prems(2) x obtain s1 where st: "step now rnd ev s = Some s1" and r: "run evs s1 = Some s'"
    by (auto split: option.splits)
  from step_bounded [OF Cons.prems(1) st] r show ?case
    by (rule Cons.IH)
qed

lemma reachable_bounded: "run evs (init t0) = Some s \<Longrightarrow> length (screenshotBuffer s) \<le> 100"
  using run_bounded [of "init t0" evs s] by (simp add: init_def MAX_BUFFER_SIZE_def)

subsection \<open>Evaluation of concrete states\<close>

lemmas handler_defs = init_def on_connection_def on_message_def on_screenshot_def on_code_def
  on_register_browser_def on_close_def
  setTimeout_def set_add_def set_delete_def cancel_registerTimer_def clearTimeout_def drop_sender_def
  map_has_def map_delete_def assign_sender_def broadcastToBrowsers_def send_if_open_def ws_send_def
  new_id_def peer_addr_def dec.simps digit_char_def MAX_BUFFER_SIZE_def
  registerTimer_cb_def flush_start_cb_def paced_send_cb_def clear_shots_cb_def
  cleanExpiredBuffers_def MESSAGE_TTL_MS_def Let_def

lemmas loop_defs = fire_def run_task_def rearm_def keepalive_def heartbeat_def ws_terminate_def

lemmas example_defs = quoted_def msg_screenshot_def msg_code_def msg_register_def peer_a_def
  one_sender_def sender_and_browser_def waiting_commands_def two_senders_def browser_alone_def

section \<open>The claims\<close>

text \<open>
  Claim C9. A \<open>code\<close> message from the connection that is the only member of the sender
  registry: the registry is not empty, so the handler takes the forwarding branch, where the
  origin is skipped. Nothing is written to any socket (no relayed command, no \<open>no_senders\<close>
  reply), nothing is appended to the command buffer, and the state as a whole is unchanged:
  the command is lost.
\<close>

theorem code_from_only_sender_dropped:
  assumes "parsed m = Some e" and "mtype e = ''code''"
    and "map fst (senders s) = [c]"
  shows "senders s \<noteq> []
         \<and> sent s (on_message c now rnd m s) = []
         \<and> codeBuffer (on_message c now rnd m s) = codeBuffer s
         \<and> on_message c now rnd m s = s"
proof -
  from assms(3) have ne: "senders s \<noteq> []" by auto
  have "on_message c now rnd m s = s"
    using assms(3)
    by (simp add: on_message_code [OF assms(1,2)] on_code_forward [OF ne] open_conns_def)
  with ne show ?thesis by (simp add: sent_def)
qed

text \<open>
  The hypotheses hold in \<open>one_sender\<close>, where connection 1 is the only sender and sends the
  command itself.
\<close>

theorem code_from_only_sender_dropped_witness:
  "map fst (senders one_sender) = [1]
   \<and> senders one_sender \<noteq> []
   \<and> outbox (on_message 1 50 ''r4nd0'' (msg_code ''7'') one_sender) = []
   \<and> codeBuffer (on_message 1 50 ''r4nd0'' (msg_code ''7'') one_sender) = []"
proof -
  have p: "parsed (msg_code ''7'') = Some \<lparr>mtype = ''code'', mdata = Some ''7''\<rparr>"
    by (simp add: msg_code_def)
  have t: "mtype \<lparr>mtype = ''code'', mdata = Some ''7''\<rparr> = ''code''"
    by simp
  have k: "map fst (senders one_sender) = [1]"
    by (simp add: handler_defs example_defs)
  have o: "outbox one_sender = [] \<and> codeBuffer one_sender = []"
    by (simp add: handler_defs example_defs)
  show ?thesis
    using k o code_from_only_sender_dropped [OF p t k, of 50 "''r4nd0''"] by auto
qed

text \<open>
  Claim C4. A \<open>code\<close> message from connection \<open>c\<close>. With a sender in the registry, the text
  of the message goes, unchanged and in registry order, to every registered sender other than
  \<open>c\<close> that the guarded send reaches, whether or not \<open>c\<close> is a sender itself: to every
  registered sender other than \<open>c\<close> when their sockets are all open. The command buffer is left
  as it was. With an empty registry, one entry (the command and the time) is appended to the
  command buffer, after the oldest has been dropped if the buffer was full, and the only frame
  written is one \<open>no_senders\<close> reply to \<open>c\<close>, its socket being open.
\<close>

theorem code_command_routing:
  assumes "parsed m = Some e" and "mtype e = ''code''"
  shows "(senders s \<noteq> [] \<longrightarrow>
            sent s (on_message c now rnd m s)
              = map (\<lambda>sc. (sc, Raw (raw m)))
                    (filter (\<lambda>sc. sc \<noteq> c) (open_conns s (map fst (senders s))))
            \<and> ((\<forall>sc\<in>set (map fst (senders s)). is_open sc s) \<longrightarrow>
                 sent s (on_message c now rnd m s)
                   = map (\<lambda>sc. (sc, Raw (raw m))) (filter (\<lambda>sc. sc \<noteq> c) (map fst (senders s))))
            \<and> codeBuffer (on_message c now rnd m s) = codeBuffer s)
       \<and> (senders s = [] \<longrightarrow>
            codeBuffer (on_message c now rnd m s)
              = (if MAX_BUFFER_SIZE \<le> length (codeBuffer s) then tl (codeBuffer s) else codeBuffer s)
                @ [\<lparr>cdata = mdata e, ctimestamp = now\<rparr>]
            \<and> sent s (on_message c now rnd m s)
              = (if is_open c s then [(c, NoSenders)] else []))"
proof -
  have all_open: "(\<forall>sc\<in>set xs. is_open sc s) \<Longrightarrow> open_conns s xs = xs" for xs
    by (simp add: open_conns_def is_open_def)
  show ?thesis
    using assms
    by (auto simp add: on_message_code on_code_forward on_code_buffer sent_def all_open is_open_def)
qed

text \<open>
  In \<open>sender_and_browser\<close> the command of browser 2 reaches sender 1 and is not buffered; in
  \<open>two_senders\<close> the command of sender 1 reaches sender 3 only; in \<open>browser_alone\<close> the
  command of browser 2 is buffered and answered with \<open>no_senders\<close>.
\<close>

theorem code_command_routing_witness:
  "senders sender_and_browser \<noteq> []
   \<and> sent sender_and_browser (on_message 2 60 ''r4nd0'' (msg_code ''7'') sender_and_browser)
       = [(1, Raw (raw (msg_code ''7'')))]
   \<and> codeBuffer (on_message 2 60 ''r4nd0'' (msg_code ''7'') sender_and_browser) = []
   \<and> map fst (senders two_senders) = [1, 3]
   \<and> sent two_senders (on_message 1 60 ''r4nd0'' (msg_code ''7'') two_senders)
       = [(3, Raw (raw (msg_code ''7'')))]
   \<and> codeBuffer (on_message 1 60 ''r4nd0'' (msg_code ''7'') two_senders) = []
   \<and> senders browser_alone = []
   \<and> codeBuffer (on_message 2 30 ''r4nd0'' (msg_code ''7'') browser_alone)
       = [\<lparr>cdata = Some ''7'', ctimestamp = 30\<rparr>]
   \<and> sent browser_alone (on_message 2 30 ''r4nd0'' (msg_code ''7'') browser_alone)
       = [(2, NoSenders)]"
proof -
  have p: "parsed (msg_code ''7'') = Some \<lparr>mtype = ''code'', mdata = Some ''7''\<rparr>"
    by (simp add: msg_code_def)
  have t: "mtype \<lparr>mtype = ''code'', mdata = Some ''7''\<rparr> = ''code''"
    by simp
  have k: "senders sender_and_browser \<noteq> []
           \<and> filter (\<lambda>sc. sc \<noteq> 2) (open_conns sender_and_browser (map fst (senders sender_and_browser))) = [1]
           \<and> codeBuffer sender_and_browser = []"
    by (simp add: handler_defs example_defs open_conns_def)
  have k2: "map fst (senders two_senders) = [1, 3]
           \<and> filter (\<lambda>sc. sc \<noteq> 1) (open_conns two_senders [1, 3]) = [3]
           \<and> codeBuffer two_senders = []"
    by (simp add: handler_defs example_defs open_conns_def)
  have k3: "senders browser_alone = [] \<and> codeBuffer browser_alone = []
           \<and> is_open 2 browser_alone"
    by (simp add: handler_defs example_defs is_open_def)
  from k2 have ne: "senders two_senders \<noteq> []"
    by auto
  show ?thesis
    using k k2 k3 ne
      code_command_routing [OF p t, of sender_and_browser 2 60 "''r4nd0''"]
      code_command_routing [OF p t, of two_senders 1 60 "''r4nd0''"]
      code_command_routing [OF p t, of browser_alone 2 30 "''r4nd0''"]
    by (simp add: MAX_BUFFER_SIZE_def)
qed



text \<open>
  Claim C10. A connection that is not yet in the sender registry sends a screenshot: it
  enters the registry, the command buffer is left as it was, every frame written goes to a
  member of the browser set and none of them comes out of the command buffer, and when the
  timer of that connection runs afterwards it does nothing, so the connection is never handed
  the buffered commands. The last two parts say that the callback of a classification timer is
  the only place where buffered commands are written: no connection, message, close or pong
  event, and no other timer, adds a flushed command to what has been sent.
\<close>

theorem first_payload_leaves_command_buffer:
  assumes "parsed m = Some e" and "mtype e = ''screenshot''" and "\<not> map_has c (senders s)"
  shows "(let s' = on_message c now rnd m s
          in map_has c (senders s')
             \<and> codeBuffer s' = codeBuffer s
             \<and> (\<forall>x\<in>set (sent s s'). fst x \<in> set (browserClients s) \<and> \<not> is_flushed_command (snd x))
             \<and> flushed_commands s' = flushed_commands s
             \<and> (\<forall>t r. run_task (RegisterTimer c) t r s' = s'))
         \<and> (\<forall>ev t r s1 s2. (\<forall>h. ev \<noteq> Fire h) \<longrightarrow> step t r ev s1 = Some s2
                \<longrightarrow> flushed_commands s2 = flushed_commands s1)
         \<and> (\<forall>h tm t r s1 s2. find (\<lambda>tm. tid tm = h) (timers s1) = Some tm
                \<longrightarrow> (\<forall>c'. task tm \<noteq> RegisterTimer c') \<longrightarrow> fire h t r s1 = Some s2
                \<longrightarrow> flushed_commands s2 = flushed_commands s1)"
proof -
  let ?s' = "on_message c now rnd m s"
  have eq: "?s' = on_screenshot c now rnd (mdata e) s"
    using assms(1,2) by (rule on_message_screenshot)
  have has: "map_has c (senders ?s')"
    using assms(3) by (simp add: eq on_screenshot_new Let_def map_has_def map_add_def)
  have buf: "codeBuffer ?s' = codeBuffer s"
    using assms(3) by (simp add: eq on_screenshot_new Let_def)
  have out: "\<forall>x\<in>set (sent s ?s'). fst x \<in> set (browserClients s) \<and> \<not> is_flushed_command (snd x)"
    using assms(3) by (auto simp add: eq on_screenshot_new Let_def sent_def open_conns_def)
  have timer: "\<forall>t r. run_task (RegisterTimer c) t r ?s' = ?s'"
    using has by (simp add: run_task_def registerTimer_cb_def)
  show ?thesis
    using has buf out timer flushed_on_message [of c now rnd m s] flushed_step flushed_fire
    by (simp add: Let_def)
qed

text \<open>
  In \<open>waiting_commands\<close> connection 3 sends a screenshot while two commands wait.
\<close>

theorem first_payload_leaves_command_buffer_witness:
  "\<not> map_has 3 (senders waiting_commands)
   \<and> map_has 3 (senders (on_message 3 150 ''p7p7p'' (msg_screenshot ''1'') waiting_commands))
   \<and> codeBuffer (on_message 3 150 ''p7p7p'' (msg_screenshot ''1'') waiting_commands)
       = [\<lparr>cdata = Some ''7'', ctimestamp = 30\<rparr>, \<lparr>cdata = Some ''8'', ctimestamp = 40\<rparr>]
   \<and> flushed_commands (on_message 3 150 ''p7p7p'' (msg_screenshot ''1'') waiting_commands) = []
   \<and> run_task (RegisterTimer 3) 900 ''zz9zz''
         (on_message 3 150 ''p7p7p'' (msg_screenshot ''1'') waiting_commands)
       = on_message 3 150 ''p7p7p'' (msg_screenshot ''1'') waiting_commands"
proof -
  have p: "parsed (msg_screenshot ''1'') = Some \<lparr>mtype = ''screenshot'', mdata = Some ''1''\<rparr>"
    by (simp add: msg_screenshot_def)
  have t: "mtype \<lparr>mtype = ''screenshot'', mdata = Some ''1''\<rparr> = ''screenshot''"
    by simp
  have m: "\<not> map_has 3 (senders waiting_commands)"
    by (simp add: handler_defs example_defs)
  have k: "codeBuffer waiting_commands
             = [\<lparr>cdata = Some ''7'', ctimestamp = 30\<rparr>, \<lparr>cdata = Some ''8'', ctimestamp = 40\<rparr>]
           \<and> flushed_commands waiting_commands = []"
    by (simp add: handler_defs example_defs flushed_commands_def)
  show ?thesis
    using m k first_payload_leaves_command_buffer [OF p t m, of 150 "''p7p7p''"]
    by (simp add: Let_def)
qed

text \<open>
  Claim C7. A \<open>register_browser\<close> message from connection \<open>c\<close>: the handle of its
  classification timer is cleared and that timer is no longer pending; the connection is
  flagged as a browser and is a member of the browser set; its identity, if it had one, is out
  of the sender registry and \<open>sender_disconnected\<close> with that identity has gone to the
  browsers (the set already containing \<open>c\<close>); and \<open>current_senders\<close> with the identities
  that remain, in registry order, is written to \<open>c\<close>, its socket being open.
\<close>

theorem explicit_browser_registration:
  assumes "parsed m = Some e" and "mtype e = ''register_browser''"
  shows "(let s' = on_message c now rnd m s;
              bs = set_add c (browserClients s)
          in registerTimer (conns s' c) = None
             \<and> (\<forall>tm\<in>set (timers s). Some (tid tm) = registerTimer (conns s c) \<longrightarrow>
                    task tm = RegisterTimer c \<longrightarrow> tm \<notin> set (timers s'))
             \<and> timers s' = filter (\<lambda>tm. Some (tid tm) \<noteq> registerTimer (conns s c)) (timers s)
                            @ (if readyState (conns s c) = 1 \<and> screenshotBuffer s \<noteq> []
                               then [\<lparr>tid = next_tid s, due = now + 200, task = FlushStart c\<rparr>] else [])
             \<and> isBrowser (conns s' c)
             \<and> senders s' = map_delete c (senders s)
             \<and> \<not> map_has c (senders s')
             \<and> browserClients s' = bs \<and> c \<in> set bs
             \<and> sent s s'
                 = (case map_of (senders s) c of
                      None \<Rightarrow> []
                    | Some info \<Rightarrow> map (\<lambda>b. (b, SenderDisconnected info)) (open_conns s bs))
                   @ (if readyState (conns s c) = 1
                      then [(c, CurrentSenders (map snd (map_delete c (senders s))))] else []))"
proof -
  have absent: "\<not> map_has c (map_delete c (senders s))"
    by (simp add: map_has_def map_delete_def map_of_eq_None_iff image_iff)
  show ?thesis
    using absent
    by (auto simp add: on_message_register [OF assms] on_register_browser_eq Let_def sent_def
          set_add_def)
qed

text \<open>
  In \<open>one_sender\<close> connection 1, already a sender, registers as a browser.
\<close>

theorem explicit_browser_registration_witness:
  "registerTimer (conns one_sender 1) = Some 2
   \<and> senders one_sender = [(1, \<lparr>sid = ''sender-5-k3x9a'', addr = ''10.0.0.5:51000''\<rparr>)]
   \<and> registerTimer (conns (on_message 1 30 ''r4nd0'' msg_register one_sender) 1) = None
   \<and> timers (on_message 1 30 ''r4nd0'' msg_register one_sender)
       = [\<lparr>tid = 0, due = 600000, task = Sweep\<rparr>, \<lparr>tid = 1, due = 30000, task = Heartbeat\<rparr>,
          \<lparr>tid = 3, due = 230, task = FlushStart 1\<rparr>]
   \<and> senders (on_message 1 30 ''r4nd0'' msg_register one_sender) = []
   \<and> browserClients (on_message 1 30 ''r4nd0'' msg_register one_sender) = [1]
   \<and> sent one_sender (on_message 1 30 ''r4nd0'' msg_register one_sender)
       = [(1, SenderDisconnected \<lparr>sid = ''sender-5-k3x9a'', addr = ''10.0.0.5:51000''\<rparr>),
          (1, CurrentSenders [])]"
proof -
  have p: "parsed msg_register = Some \<lparr>mtype = ''register_browser'', mdata = None\<rparr>"
    by (simp add: msg_register_def)
  have t: "mtype \<lparr>mtype = ''register_browser'', mdata = None\<rparr> = ''register_browser''"
    by simp
  have k: "registerTimer (conns one_sender 1) = Some 2
           \<and> senders one_sender = [(1, \<lparr>sid = ''sender-5-k3x9a'', addr = ''10.0.0.5:51000''\<rparr>)]
           \<and> timers one_sender
               = [\<lparr>tid = 0, due = 600000, task = Sweep\<rparr>, \<lparr>tid = 1, due = 30000, task = Heartbeat\<rparr>,
                  \<lparr>tid = 2, due = 800, task = RegisterTimer 1\<rparr>]
           \<and> browserClients one_sender = [] \<and> readyState (conns one_sender 1) = 1
           \<and> screenshotBuffer one_sender \<noteq> [] \<and> next_tid one_sender = 3"
    by (simp add: handler_defs example_defs)
  show ?thesis
    using k explicit_browser_registration [OF p t, of 1 30 "''r4nd0''" one_sender]
    by (simp add: Let_def set_add_def map_delete_def open_conns_def)
qed

text \<open>
  Claim C1 says that no connection is at once in the sender registry and in the browser set.
  The screenshot branch enters its connection in the registry whenever it is not there yet,
  without looking at the browser flag or the browser set, unlike the timer callback
  (\<open>timer_skips_browser\<close>). So connection 7, which registers as a browser and then sends a
  screenshot, ends in both structures.
\<close>

theorem browser_payload_in_both_registries:
  "map_option browserClients (run browser_sends_screenshot (init 0)) = Some [7]
   \<and> map_option senders (run browser_sends_screenshot (init 0))
       = Some [(7, \<lparr>sid = ''sender-20-abcde'', addr = ''unknown''\<rparr>)]"
  by (simp add: browser_sends_screenshot_def handler_defs example_defs loop_defs)

text \<open>
  Claim C8 says that a connection that has sent \<open>register_browser\<close> is never afterwards
  entered in the sender registry by an automatic classification. Its timer is cancelled, and
  would do nothing (\<open>timer_skips_browser\<close>), but the screenshot branch has no such guard.
  Connection 7 registers as a browser, the registry being empty and the socket open; 900 ms
  after connecting it sends a screenshot, is given a sender identity, and browser 8 is told
  \<open>sender_connected\<close>.
\<close>

theorem registered_browser_becomes_sender:
  "map_option senders (run (butlast browser_sends_screenshot_late) (init 0)) = Some []
   \<and> map_option (is_open 7) (run (butlast browser_sends_screenshot_late) (init 0)) = Some True
   \<and> map_option browserClients (run (butlast browser_sends_screenshot_late) (init 0)) = Some [7, 8]
   \<and> map_option senders (run browser_sends_screenshot_late (init 0))
       = Some [(7, \<lparr>sid = ''sender-900-abcde'', addr = ''unknown''\<rparr>)]
   \<and> map_option (frames_to 8) (run browser_sends_screenshot_late (init 0))
       = Some [CurrentSenders [],
               SenderConnected \<lparr>sid = ''sender-900-abcde'', addr = ''unknown''\<rparr>,
               Screenshot (Some ''1'') (Some ''sender-900-abcde'') None]"
  by (simp add: browser_sends_screenshot_late_def handler_defs example_defs loop_defs
        frames_to_def is_open_def)

text \<open>
  Claim C2 says that an entry that is at least three hours old when a flush runs is not sent
  by it. The flushes do not look at the age; only the sweep does, every ten minutes. In
  \<open>late_browser\<close> the entry of time 5 survives the sweep at 10800000 (it is 5 ms short of
  three hours), is in the buffer when the flush of browser 2 starts at 10800202, being then
  10800197 ms old, and is sent to browser 2.
\<close>

theorem expired_entry_flushed_counterexample:
  "map_option screenshotBuffer (run late_browser_until_flush (init 0))
     = Some [\<lparr>sdata = Some ''1'', senderId = Some ''sender-5-k3x9a'', timestamp = 5\<rparr>]
   \<and> MESSAGE_TTL_MS \<le> shot_age 10800202 \<lparr>sdata = Some ''1'', senderId = Some ''sender-5-k3x9a'', timestamp = 5\<rparr>
   \<and> map_option (frames_to 2) (run late_browser (init 0))
       = Some [CurrentSenders [], Screenshot (Some ''1'') (Some ''sender-5-k3x9a'') (Some 5)]"
  by (simp add: late_browser_def late_browser_until_flush_def handler_defs example_defs loop_defs
        frames_to_def shot_age_def upt_rec)

text \<open>
  Claim C5 says that a browser that registers while the producer buffer holds \<open>k > 0\<close>
  entries is scheduled to receive these \<open>k\<close> entries. The entries are copied when the timer of
  200 ms fires, not at the registration. In \<open>two_browsers\<close> connection 3 registers while the
  buffer holds one entry; the clearing timer of the flush of connection 2 empties the buffer
  at 450 ms; the flush of connection 3 starts at 460 ms and copies an empty buffer. Connection
  3, open all the time, has been sent \<open>current_senders\<close> and nothing else, and no paced send is
  pending for it.
\<close>

theorem second_browser_gets_nothing_counterexample:
  "map_option screenshotBuffer (run two_browsers_until_second (init 0))
     = Some [\<lparr>sdata = Some ''1'', senderId = Some ''sender-5-k3x9a'', timestamp = 5\<rparr>]
   \<and> map_option (is_open 3) (run two_browsers (init 0)) = Some True
   \<and> map_option (frames_to 3) (run two_browsers (init 0))
       = Some [CurrentSenders [\<lparr>sid = ''sender-5-k3x9a'', addr = ''10.0.0.5:51000''\<rparr>]]
   \<and> map_option (paced_for 3) (run two_browsers (init 0)) = Some []
   \<and> map_option screenshotBuffer (run two_browsers (init 0)) = Some []"
  by (simp add: two_browsers_def two_browsers_until_second_def handler_defs example_defs loop_defs
        frames_to_def paced_for_def is_open_def)

text \<open>
  Claim C2 as amended. The sweep keeps, in both buffers and in their order, exactly the
  entries younger than three hours at the time it runs, whatever the length of the buffer: an
  entry that is three hours old or more is gone after it. So the flushes that start on the
  buffers the sweep leaves, the paced flush to a browser and the command flush to a newly
  classified sender, schedule or send only entries that were younger than three hours at the
  sweep.
\<close>

theorem sweep_removes_expired:
  "(let s' = run_task Sweep now rnd s
    in screenshotBuffer s' = filter (\<lambda>e. shot_age now e < MESSAGE_TTL_MS) (screenshotBuffer s)
       \<and> codeBuffer s' = filter (\<lambda>e. cmd_age now e < MESSAGE_TTL_MS) (codeBuffer s)
       \<and> (\<forall>e\<in>set (screenshotBuffer s). MESSAGE_TTL_MS \<le> shot_age now e \<longrightarrow> e \<notin> set (screenshotBuffer s'))
       \<and> (\<forall>e\<in>set (codeBuffer s). MESSAGE_TTL_MS \<le> cmd_age now e \<longrightarrow> e \<notin> set (codeBuffer s'))
       \<and> (\<forall>c t r. \<forall>tm\<in>set (scheduled s' (run_task (FlushStart c) t r s')).
              \<forall>e. task tm = PacedSend c e \<longrightarrow> e \<in> set (screenshotBuffer s) \<and> shot_age now e < MESSAGE_TTL_MS)
       \<and> (\<forall>c t r. \<forall>x\<in>set (sent s' (run_task (RegisterTimer c) t r s')).
              is_flushed_command (snd x) \<longrightarrow>
              (\<exists>e\<in>set (codeBuffer s). snd x = CodeMsg (cdata e) \<and> cmd_age now e < MESSAGE_TTL_MS)))"
proof -
  let ?s' = "run_task Sweep now rnd s"
  have sb: "screenshotBuffer ?s' = filter (\<lambda>e. shot_age now e < MESSAGE_TTL_MS) (screenshotBuffer s)"
    by (simp add: run_task_def cleanExpiredBuffers_def shot_age_def)
  have cb: "codeBuffer ?s' = filter (\<lambda>e. cmd_age now e < MESSAGE_TTL_MS) (codeBuffer s)"
    by (simp add: run_task_def cleanExpiredBuffers_def cmd_age_def)
  have paced: "\<forall>c t r. \<forall>tm\<in>set (scheduled ?s' (run_task (FlushStart c) t r ?s')).
              \<forall>e. task tm = PacedSend c e \<longrightarrow> e \<in> set (screenshotBuffer s) \<and> shot_age now e < MESSAGE_TTL_MS"
  proof (intro allI ballI impI)
    fix c t r tm e
    assume tm: "tm \<in> set (scheduled ?s' (run_task (FlushStart c) t r ?s'))"
      and tk: "task tm = PacedSend c e"
    from tm tk obtain i where "i < length (screenshotBuffer ?s')" and "e = screenshotBuffer ?s' ! i"
      by (auto simp add: scheduled_def run_task_def flush_start_cb_eq)
    then have "e \<in> set (screenshotBuffer ?s')" by simp
    then show "e \<in> set (screenshotBuffer s) \<and> shot_age now e < MESSAGE_TTL_MS"
      by (simp add: sb)
  qed
  have cmds: "\<forall>c t r. \<forall>x\<in>set (sent ?s' (run_task (RegisterTimer c) t r ?s')).
              is_flushed_command (snd x) \<longrightarrow>
              (\<exists>e\<in>set (codeBuffer s). snd x = CodeMsg (cdata e) \<and> cmd_age now e < MESSAGE_TTL_MS)"
  proof (intro allI ballI impI)
    fix c t r x
    assume x: "x \<in> set (sent ?s' (run_task (RegisterTimer c) t r ?s'))"
      and f: "is_flushed_command (snd x)"
    show "\<exists>e\<in>set (codeBuffer s). snd x = CodeMsg (cdata e) \<and> cmd_age now e < MESSAGE_TTL_MS"
    proof (cases "\<not> isBrowser (conns ?s' c) \<and> \<not> map_has c (senders ?s')")
      case True
      with x f obtain e where "e \<in> set (codeBuffer ?s')" and "snd x = CodeMsg (cdata e)"
        by (auto simp add: sent_def run_task_def [of "RegisterTimer c"] registerTimer_cb_eq
            split: if_splits)
      then show ?thesis by (auto simp add: cb)
    next
      case False
      then have "run_task (RegisterTimer c) t r ?s' = ?s'"
        by (auto simp add: run_task_def [of "RegisterTimer c"] registerTimer_cb_def)
      with x show ?thesis by (simp add: sent_def)
    qed
  qed
  show ?thesis
    unfolding Let_def using sb cb paced cmds by auto
qed

text \<open>
  The entry of time 5 in \<open>one_sender\<close> is removed by a sweep at 10800005 and kept by a sweep
  one millisecond earlier.
\<close>

theorem sweep_removes_expired_witness:
  "screenshotBuffer one_sender
     = [\<lparr>sdata = Some ''1'', senderId = Some ''sender-5-k3x9a'', timestamp = 5\<rparr>]
   \<and> MESSAGE_TTL_MS \<le> shot_age 10800005 \<lparr>sdata = Some ''1'', senderId = Some ''sender-5-k3x9a'', timestamp = 5\<rparr>
   \<and> screenshotBuffer (run_task Sweep 10800005 ''r4nd0'' one_sender) = []
   \<and> shot_age 10800004 \<lparr>sdata = Some ''1'', senderId = Some ''sender-5-k3x9a'', timestamp = 5\<rparr> < MESSAGE_TTL_MS
   \<and> screenshotBuffer (run_task Sweep 10800004 ''r4nd0'' one_sender)
       = [\<lparr>sdata = Some ''1'', senderId = Some ''sender-5-k3x9a'', timestamp = 5\<rparr>]"
proof -
  have k: "screenshotBuffer one_sender
             = [\<lparr>sdata = Some ''1'', senderId = Some ''sender-5-k3x9a'', timestamp = 5\<rparr>]"
    by (simp add: handler_defs example_defs)
  show ?thesis
    using k sweep_removes_expired [of 10800005 "''r4nd0''" one_sender]
      sweep_removes_expired [of 10800004 "''r4nd0''" one_sender]
    by (simp add: Let_def shot_age_def MESSAGE_TTL_MS_def)
qed

text \<open>
  Claim C5 as amended. A connection with an open socket registers as a browser while the
  producer buffer is not empty: the last frame written is the \<open>current_senders\<close> reply to it,
  and a flush timer for it is pending, due 200 ms later. When the callback of that timer runs,
  at time \<open>t\<close> and on a buffer of \<open>k\<close> entries, it schedules \<open>k\<close> paced sends to the connection,
  for the entries in buffer order, the one of index \<open>i\<close> (from 0) due at \<open>t + 50 i\<close>, and after
  them the clearing timer, due at \<open>t + 50 k + 100\<close>; it sends nothing and leaves the buffer as
  it is. A paced send writes its entry as a \<open>screenshot\<close> frame with the entry's \<open>senderId\<close>
  (and its time) if the socket is open when it runs, and nothing otherwise. The clearing timer
  empties the producer buffer.
\<close>

theorem browser_flush_schedule:
  assumes "parsed m = Some e" and "mtype e = ''register_browser''"
    and "is_open c s" and "screenshotBuffer s \<noteq> []"
  shows "(let s1 = on_message c now rnd m s
          in sent s s1
               = (case map_of (senders s) c of
                    None \<Rightarrow> []
                  | Some info \<Rightarrow> map (\<lambda>b. (b, SenderDisconnected info))
                                    (open_conns s (set_add c (browserClients s))))
                 @ [(c, CurrentSenders (map snd (map_delete c (senders s))))]
             \<and> screenshotBuffer s1 = screenshotBuffer s
             \<and> timers s1 = filter (\<lambda>tm. Some (tid tm) \<noteq> registerTimer (conns s c)) (timers s)
                            @ [\<lparr>tid = next_tid s, due = now + 200, task = FlushStart c\<rparr>])
         \<and> (\<forall>t r s2.
               let k = length (screenshotBuffer s2);
                   s3 = run_task (FlushStart c) t r s2
               in scheduled s2 s3
                    = map (\<lambda>i. \<lparr>tid = next_tid s2 + i, due = t + i * 50,
                                 task = PacedSend c (screenshotBuffer s2 ! i)\<rparr>) [0..<k]
                      @ [\<lparr>tid = next_tid s2 + k, due = t + (k * 50 + 100), task = ClearShots\<rparr>]
                  \<and> sent s2 s3 = [] \<and> screenshotBuffer s3 = screenshotBuffer s2)
         \<and> (\<forall>t r p s4. sent s4 (run_task (PacedSend c p) t r s4)
               = (if is_open c s4 then [(c, Screenshot (sdata p) (senderId p) (Some (timestamp p)))]
                  else []))
         \<and> (\<forall>t r s5. screenshotBuffer (run_task ClearShots t r s5) = [])"
proof -
  have reg: "let s1 = on_message c now rnd m s
          in sent s s1
               = (case map_of (senders s) c of
                    None \<Rightarrow> []
                  | Some info \<Rightarrow> map (\<lambda>b. (b, SenderDisconnected info))
                                    (open_conns s (set_add c (browserClients s))))
                 @ [(c, CurrentSenders (map snd (map_delete c (senders s))))]
             \<and> screenshotBuffer s1 = screenshotBuffer s
             \<and> timers s1 = filter (\<lambda>tm. Some (tid tm) \<noteq> registerTimer (conns s c)) (timers s)
                            @ [\<lparr>tid = next_tid s, due = now + 200, task = FlushStart c\<rparr>]"
    using assms(3,4)
    by (simp add: on_message_register [OF assms(1,2)] on_register_browser_eq Let_def sent_def
          is_open_def)
  have flush: "\<forall>t r s2.
               let k = length (screenshotBuffer s2);
                   s3 = run_task (FlushStart c) t r s2
               in scheduled s2 s3
                    = map (\<lambda>i. \<lparr>tid = next_tid s2 + i, due = t + i * 50,
                                 task = PacedSend c (screenshotBuffer s2 ! i)\<rparr>) [0..<k]
                      @ [\<lparr>tid = next_tid s2 + k, due = t + (k * 50 + 100), task = ClearShots\<rparr>]
                  \<and> sent s2 s3 = [] \<and> screenshotBuffer s3 = screenshotBuffer s2"
    by (simp add: run_task_def flush_start_cb_eq scheduled_def sent_def Let_def)
  have paced: "\<forall>t r p s4. sent s4 (run_task (PacedSend c p) t r s4)
               = (if is_open c s4 then [(c, Screenshot (sdata p) (senderId p) (Some (timestamp p)))]
                  else [])"
    by (simp add: run_task_def paced_send_cb_def send_if_open_def ws_send_def sent_def is_open_def)
  have clear: "\<forall>t r s5. screenshotBuffer (run_task ClearShots t r s5) = []"
    by (simp add: run_task_def clear_shots_cb_def)
  from reg flush paced clear show ?thesis by blast
qed

text \<open>
  Connection 2 registers while the buffer of \<open>one_sender\<close> holds one entry.
\<close>

theorem browser_flush_schedule_witness:
  "is_open 2 (on_connection 2 None 10 one_sender)
   \<and> screenshotBuffer (on_connection 2 None 10 one_sender)
       = [\<lparr>sdata = Some ''1'', senderId = Some ''sender-5-k3x9a'', timestamp = 5\<rparr>]
   \<and> sent (on_connection 2 None 10 one_sender) sender_and_browser
       = [(2, CurrentSenders [\<lparr>sid = ''sender-5-k3x9a'', addr = ''10.0.0.5:51000''\<rparr>])]
   \<and> timers sender_and_browser
       = [\<lparr>tid = 0, due = 600000, task = Sweep\<rparr>, \<lparr>tid = 1, due = 30000, task = Heartbeat\<rparr>,
          \<lparr>tid = 2, due = 800, task = RegisterTimer 1\<rparr>, \<lparr>tid = 4, due = 220, task = FlushStart 2\<rparr>]
   \<and> scheduled sender_and_browser (run_task (FlushStart 2) 220 ''r4nd0'' sender_and_browser)
       = [\<lparr>tid = 5, due = 220,
           task = PacedSend 2 \<lparr>sdata = Some ''1'', senderId = Some ''sender-5-k3x9a'', timestamp = 5\<rparr>\<rparr>,
          \<lparr>tid = 6, due = 370, task = ClearShots\<rparr>]
   \<and> sent sender_and_browser
         (run_task (PacedSend 2 \<lparr>sdata = Some ''1'', senderId = Some ''sender-5-k3x9a'', timestamp = 5\<rparr>)
            220 ''r4nd0'' sender_and_browser)
       = [(2, Screenshot (Some ''1'') (Some ''sender-5-k3x9a'') (Some 5))]"
proof -
  let ?s = "on_connection 2 None 10 one_sender"
  have p: "parsed msg_register = Some \<lparr>mtype = ''register_browser'', mdata = None\<rparr>"
    by (simp add: msg_register_def)
  have t: "mtype \<lparr>mtype = ''register_browser'', mdata = None\<rparr> = ''register_browser''"
    by simp
  have o: "is_open 2 ?s"
    by (simp add: handler_defs is_open_def)
  have b: "screenshotBuffer ?s \<noteq> []"
    by (simp add: handler_defs example_defs)
  have k: "screenshotBuffer ?s = [\<lparr>sdata = Some ''1'', senderId = Some ''sender-5-k3x9a'', timestamp = 5\<rparr>]
           \<and> senders ?s = [(1, \<lparr>sid = ''sender-5-k3x9a'', addr = ''10.0.0.5:51000''\<rparr>)]
           \<and> timers ?s = [\<lparr>tid = 0, due = 600000, task = Sweep\<rparr>, \<lparr>tid = 1, due = 30000, task = Heartbeat\<rparr>,
                           \<lparr>tid = 2, due = 800, task = RegisterTimer 1\<rparr>, \<lparr>tid = 3, due = 810, task = RegisterTimer 2\<rparr>]
           \<and> next_tid ?s = 4 \<and> registerTimer (conns ?s 2) = Some 3"
    by (simp add: handler_defs example_defs)
  have k2: "next_tid sender_and_browser = 5 \<and> is_open 2 sender_and_browser
            \<and> screenshotBuffer sender_and_browser
                = [\<lparr>sdata = Some ''1'', senderId = Some ''sender-5-k3x9a'', timestamp = 5\<rparr>]"
    by (simp add: handler_defs example_defs is_open_def)
  note th = browser_flush_schedule [OF p t o b, of 20 "''q0q0q''"]
  have reg: "sent ?s sender_and_browser
               = [(2, CurrentSenders [\<lparr>sid = ''sender-5-k3x9a'', addr = ''10.0.0.5:51000''\<rparr>])]
             \<and> timers sender_and_browser
               = [\<lparr>tid = 0, due = 600000, task = Sweep\<rparr>, \<lparr>tid = 1, due = 30000, task = Heartbeat\<rparr>,
                  \<lparr>tid = 2, due = 800, task = RegisterTimer 1\<rparr>, \<lparr>tid = 4, due = 220, task = FlushStart 2\<rparr>]"
    using th [THEN conjunct1] k
    by (simp add: Let_def sender_and_browser_def [symmetric] map_delete_def)
  have fl: "scheduled sender_and_browser (run_task (FlushStart 2) 220 ''r4nd0'' sender_and_browser)
       = [\<lparr>tid = 5, due = 220,
           task = PacedSend 2 \<lparr>sdata = Some ''1'', senderId = Some ''sender-5-k3x9a'', timestamp = 5\<rparr>\<rparr>,
          \<lparr>tid = 6, due = 370, task = ClearShots\<rparr>]"
    using th [THEN conjunct2, THEN conjunct1, rule_format, of sender_and_browser 220 "''r4nd0''"] k2
    by (simp add: Let_def)
  have ps: "sent sender_and_browser
         (run_task (PacedSend 2 \<lparr>sdata = Some ''1'', senderId = Some ''sender-5-k3x9a'', timestamp = 5\<rparr>)
            220 ''r4nd0'' sender_and_browser)
       = [(2, Screenshot (Some ''1'') (Some ''sender-5-k3x9a'') (Some 5))]"
    using th [THEN conjunct2, THEN conjunct2, THEN conjunct1, rule_format, of sender_and_browser] k2
    by simp
  from o k reg fl ps show ?thesis by simp
qed




end
